theory Spec2Isabelle
  imports Main "HOL-Library.AList" "HOL-Library.Word"
begin

section \<open>Data frames\<close>

text \<open>
  The notebook works on data frames of the vaex library: tables of named columns, all
  of one length. The columns that \<open>prepare_data\<close> reads and writes are arrays of signed
  64-bit integers (numpy \<open>int64\<close>): \<open>+\<close> and \<open>-\<close> on them wrap around, and \<open>sint\<close> gives
  the integer a cell stands for. A column is modelled as a list of cells; a cell is such
  an integer or is missing (\<open>None\<close>), which is what a left join leaves where the other
  table has no matching row. A data frame is the list of its named columns, in column
  order. The three setting and twenty-one sensor channels are decimal readings in the data
  files; \<open>prepare_data\<close> never reads them, so they are not told apart from integer columns.
\<close>

type_synonym int64 = "64 word"
type_synonym cell = "int64 option"
type_synonym column = "cell list"
type_synonym dataframe = "(string \<times> column) list"

datatype error =
    UnknownColumn string
  | NameCollision string
  | DuplicateKeys string
  | LengthMismatch nat nat

definition get_column_names :: "dataframe \<Rightarrow> string list" where
  "get_column_names df = map fst df"

text \<open>\<open>len(df)\<close>: the number of rows.\<close>

definition length_df :: "dataframe \<Rightarrow> nat" where
  "length_df df = (case df of [] \<Rightarrow> 0 | (name, c) # rest \<Rightarrow> length c)"

subsection \<open>Expressions\<close>

text \<open>
  \<open>df.max_cycles - df.time_in_cycles\<close> is an expression over the columns of \<open>df\<close>,
  evaluated row by row; a missing operand gives a missing result.
\<close>

datatype expression =
    Var string
  | Plus expression expression
  | Minus expression expression
  | AstypeInt expression

definition plus_cell :: "cell \<Rightarrow> cell \<Rightarrow> cell" where
  "plus_cell a b = (case (a, b) of (Some x, Some y) \<Rightarrow> Some (x + y) | _ \<Rightarrow> None)"

definition minus_cell :: "cell \<Rightarrow> cell \<Rightarrow> cell" where
  "minus_cell a b = (case (a, b) of (Some x, Some y) \<Rightarrow> Some (x - y) | _ \<Rightarrow> None)"

fun evaluate :: "dataframe \<Rightarrow> expression \<Rightarrow> error + column" where
  "evaluate df (Var name) =
     (case map_of df name of None \<Rightarrow> Inl (UnknownColumn name) | Some c \<Rightarrow> Inr c)"
| "evaluate df (Plus a b) =
     (case evaluate df a of Inl e \<Rightarrow> Inl e | Inr x \<Rightarrow>
      (case evaluate df b of Inl e \<Rightarrow> Inl e | Inr y \<Rightarrow> Inr (map2 plus_cell x y)))"
| "evaluate df (Minus a b) =
     (case evaluate df a of Inl e \<Rightarrow> Inl e | Inr x \<Rightarrow>
      (case evaluate df b of Inl e \<Rightarrow> Inl e | Inr y \<Rightarrow> Inr (map2 minus_cell x y)))"
| "evaluate df (AstypeInt a) = evaluate df a"

subsection \<open>Group-by count, left join, drop\<close>

text \<open>
  \<open>df.groupby(by).agg({name: vaex.agg.count(x)})\<close>: one row per distinct value of
  column \<open>by\<close>, with the number of rows of that group whose \<open>x\<close> is not missing, as a
  64-bit integer. The order of the groups is immaterial to the join that follows.
\<close>

definition agg_count :: "dataframe \<Rightarrow> string \<Rightarrow> string \<Rightarrow> string \<Rightarrow> error + dataframe" where
  "agg_count df by name x =
     (case map_of df by of None \<Rightarrow> Inl (UnknownColumn by) | Some ks \<Rightarrow>
      (case map_of df x of None \<Rightarrow> Inl (UnknownColumn x) | Some xs \<Rightarrow>
         Inr [(by, remdups ks),
              (name, map (\<lambda>k. Some (of_nat (length (filter (\<lambda>(k', v). k' = k \<and> v \<noteq> None) (zip ks xs)))))
                         (remdups ks))]))"

text \<open>
  \<open>left.join(right, on=on, how='left')\<close>: every row of \<open>left\<close> is kept, in order; each
  column of \<open>right\<close> other than \<open>on\<close> is added, read at the row of \<open>right\<close> with the same
  key, and missing where \<open>right\<close> has no such row. A column of \<open>right\<close> whose name is
  already in \<open>left\<close> is refused, and so are repeated keys in \<open>right\<close>. The library can
  raise in further cases, which depend on its version and on how it stores a group-by
  result (keys that are not a full range of integers, a table of no rows); these are not
  modelled. Every statement below on the result of \<open>prepare_data\<close> is therefore about the
  table of a call that returns one, and says nothing of a call that raises.
\<close>

definition left_join :: "dataframe \<Rightarrow> dataframe \<Rightarrow> string \<Rightarrow> error + dataframe" where
  "left_join left right on =
     (case find (\<lambda>name. name \<noteq> on \<and> name \<in> set (get_column_names left)) (get_column_names right) of
        Some name \<Rightarrow> Inl (NameCollision name)
      | None \<Rightarrow>
     (case map_of left on of None \<Rightarrow> Inl (UnknownColumn on) | Some lk \<Rightarrow>
     (case map_of right on of None \<Rightarrow> Inl (UnknownColumn on) | Some rk \<Rightarrow>
        if \<not> distinct rk then Inl (DuplicateKeys on)
        else Inr (left @
                  map (\<lambda>(name, c). (name, map (\<lambda>k. case map_of (zip rk c) k of None \<Rightarrow> None | Some v \<Rightarrow> v) lk))
                      (filter (\<lambda>(name, c). name \<noteq> on) right)))))"

text \<open>\<open>df.drop(columns=names)\<close>.\<close>

definition drop_columns :: "dataframe \<Rightarrow> string list \<Rightarrow> error + dataframe" where
  "drop_columns df names =
     (case find (\<lambda>name. name \<notin> set (get_column_names df)) names of
        Some name \<Rightarrow> Inl (UnknownColumn name)
      | None \<Rightarrow> Inr (filter (\<lambda>(name, c). name \<notin> set names) df))"

section \<open>Data frame objects\<close>

text \<open>
  A Python variable holds a reference to a data frame object, and \<open>df['RUL'] = ...\<close>
  changes the object it is applied to. The store lists the objects; a reference is an
  index into it. A method either raises, leaving the store as it is, or returns a value
  and the new store.
\<close>

type_synonym ref = nat
type_synonym store = "dataframe list"
type_synonym 'a action = "store \<Rightarrow> (error + 'a) \<times> store"

definition bind :: "'a action \<Rightarrow> ('a \<Rightarrow> 'b action) \<Rightarrow> 'b action" where
  "bind m f s = (case m s of (Inl e, s') \<Rightarrow> (Inl e, s') | (Inr x, s') \<Rightarrow> f x s')"

definition return :: "'a \<Rightarrow> 'a action" where
  "return x s = (Inr x, s)"

definition new :: "error + dataframe \<Rightarrow> ref action" where
  "new v s = (case v of Inl e \<Rightarrow> (Inl e, s) | Inr df \<Rightarrow> (Inr (length s), s @ [df]))"

text \<open>The data frame a call returns, read from the store it leaves.\<close>

definition result :: "(error + ref) \<times> store \<Rightarrow> error + dataframe" where
  "result p = (case p of (Inl e, s) \<Rightarrow> Inl e | (Inr r, s) \<Rightarrow> Inr (s ! r))"

definition copy :: "ref \<Rightarrow> ref action" where
  "copy df s = new (Inr (s ! df)) s"

definition groupby_agg_count :: "ref \<Rightarrow> string \<Rightarrow> string \<Rightarrow> string \<Rightarrow> ref action" where
  "groupby_agg_count df by name x s = new (agg_count (s ! df) by name x) s"

definition join :: "ref \<Rightarrow> ref \<Rightarrow> string \<Rightarrow> ref action" where
  "join df other on s = new (left_join (s ! df) (s ! other) on) s"

definition drop_df :: "ref \<Rightarrow> string list \<Rightarrow> ref action" where
  "drop_df df names s = new (drop_columns (s ! df) names) s"

text \<open>
  \<open>df[name] = expression\<close> (vaex: \<open>add_virtual_column\<close>) changes the object in place: the
  column replaces one of that name, or is added last. The expression is evaluated at once.
  The library evaluates it on demand, and to that end keeps a dropped column that the
  expression reads as a hidden one, which \<open>get_column_names\<close> does not list.
\<close>

definition add_virtual_column :: "ref \<Rightarrow> string \<Rightarrow> expression \<Rightarrow> unit action" where
  "add_virtual_column df name e s =
     (case evaluate (s ! df) e of
        Inl err \<Rightarrow> (Inl err, s)
      | Inr c \<Rightarrow> (Inr (), s[df := AList.update name c (s ! df)]))"

text \<open>
  \<open>df[name] = array\<close> (vaex: \<open>add_column\<close>) changes the object in place too, and refuses
  an array whose length is not the data frame's.
\<close>

definition add_column :: "ref \<Rightarrow> string \<Rightarrow> column \<Rightarrow> unit action" where
  "add_column df name c s =
     (if length c \<noteq> length_df (s ! df) then (Inl (LengthMismatch (length c) (length_df (s ! df))), s)
      else (Inr (), s[df := AList.update name c (s ! df)]))"

section \<open>Reading the label file\<close>

text \<open>
  \<open>vaex.read_csv(path, names=names)\<close> on a file without header: the argument \<open>rows\<close> is
  the parsed file, one list of fields per line; column \<open>j\<close> takes field \<open>j\<close> of every line.
\<close>

definition read_csv :: "string list \<Rightarrow> int64 list list \<Rightarrow> ref action" where
  "read_csv names rows s =
     new (Inr (map (\<lambda>j. (names ! j, map (\<lambda>row. if j < length row then Some (row ! j) else None) rows))
                   [0..<length names])) s"

text \<open>\<open>vaex.vrange(start, stop)\<close>: the values \<open>start, start + 1, ..., stop - 1\<close>.\<close>

definition vrange :: "int \<Rightarrow> int \<Rightarrow> column" where
  "vrange start stop = map (\<lambda>i. Some (word_of_int i)) [start..stop - 1]"

text \<open>
  The third code cell builds the label table:
  \<^verbatim>\<open>
  y_test = vaex.read_csv('./data/RUL_FD001.txt', names=['remaining_cycles'])
  y_test['unit_number'] = vaex.vrange(1, 101)
  y_test['unit_number'] = y_test.unit_number.astype('int')
  \<close>
\<close>

definition y_test :: "int64 list list \<Rightarrow> ref action" where
  "y_test rows =
     bind (read_csv [''remaining_cycles''] rows) (\<lambda>y.
     bind (add_column y ''unit_number'' (vrange 1 101)) (\<lambda>_.
     bind (add_virtual_column y ''unit_number'' (AstypeInt (Var ''unit_number''))) (\<lambda>_.
     return y)))"

section \<open>The function \<open>prepare_data\<close>\<close>

text \<open>
  \<^verbatim>\<open>
  def prepare_data(data, y=None):
      df = data.copy()
      g = df.groupby('unit_number').agg({'max_cycles': vaex.agg.count('time_in_cycles')})
      df = df.join(other=g, on='unit_number', how='left')
      if y is None:
          df['RUL'] = df.max_cycles - df.time_in_cycles
          df = df.drop(columns=['max_cycles'])
      else:
          df = df.join(y, on='unit_number', how='left')
          df['RUL'] = df.max_cycles + df.remaining_cycles - df.time_in_cycles
          df = df.drop(columns=['remaining_cycles', 'max_cycles'])
      return df
  \<close>
\<close>

definition prepare_data :: "ref \<Rightarrow> ref option \<Rightarrow> ref action" where
  "prepare_data data y =
     bind (copy data) (\<lambda>df.
     bind (groupby_agg_count df ''unit_number'' ''max_cycles'' ''time_in_cycles'') (\<lambda>g.
     bind (join df g ''unit_number'') (\<lambda>df.
     (case y of
        None \<Rightarrow>
          bind (add_virtual_column df ''RUL'' (Minus (Var ''max_cycles'') (Var ''time_in_cycles''))) (\<lambda>_.
          drop_df df [''max_cycles''])
      | Some y \<Rightarrow>
          bind (join df y ''unit_number'') (\<lambda>df.
          bind (add_virtual_column df ''RUL''
                  (Minus (Plus (Var ''max_cycles'') (Var ''remaining_cycles'')) (Var ''time_in_cycles''))) (\<lambda>_.
          drop_df df [''remaining_cycles'', ''max_cycles'']))))))"


section \<open>Well-formed inputs\<close>

text \<open>All columns of a data frame have its length.\<close>

definition rectangular :: "dataframe \<Rightarrow> bool" where
  "rectangular df \<longleftrightarrow> (\<forall>c \<in> set (map snd df). length c = length_df df)"

text \<open>
  A table of run records: \<open>us\<close> and \<open>ts\<close> are its \<open>unit_number\<close> and \<open>time_in_cycles\<close>
  columns, with no value missing, as the reader of the data files delivers them. The name
  \<open>max_cycles\<close> is not among the column names of the data files.
\<close>

definition runs_table :: "dataframe \<Rightarrow> int64 list \<Rightarrow> int64 list \<Rightarrow> bool" where
  "runs_table df us ts \<longleftrightarrow>
     rectangular df \<and>
     map_of df ''unit_number'' = Some (map Some us) \<and>
     map_of df ''time_in_cycles'' = Some (map Some ts) \<and>
     ''max_cycles'' \<notin> set (get_column_names df)"

text \<open>
  A table of label records: one row per unit, \<open>ks\<close> the unit numbers and \<open>rs\<close> their
  remaining cycles, and no other column. The label of unit \<open>u\<close> is \<open>map_of (zip ks rs) u\<close>.
\<close>

definition labels_table :: "dataframe \<Rightarrow> int64 list \<Rightarrow> int64 list \<Rightarrow> bool" where
  "labels_table y ks rs \<longleftrightarrow>
     map_of y ''unit_number'' = Some (map Some ks) \<and>
     map_of y ''remaining_cycles'' = Some (map Some rs) \<and>
     length rs = length ks \<and> distinct ks \<and>
     set (get_column_names y) \<subseteq> {''unit_number'', ''remaining_cycles''}"

text \<open>
  The cycle numbers recorded for unit \<open>u\<close>, and tables in which the cycles of every unit
  are \<open>1, ..., n\<close>, where \<open>n\<close> is the number of its records (so each occurs once).
\<close>

definition cycles_of :: "int64 list \<Rightarrow> int64 list \<Rightarrow> int64 \<Rightarrow> int64 list" where
  "cycles_of us ts u = map snd (filter (\<lambda>(v, t). v = u) (zip us ts))"

definition contiguous_from_1 :: "int64 list \<Rightarrow> int64 list \<Rightarrow> bool" where
  "contiguous_from_1 us ts \<longleftrightarrow>
     (\<forall>u \<in> set us. sint ` set (cycles_of us ts u) = {1..int (length (cycles_of us ts u))})"

subsection \<open>Small tables\<close>

text \<open>Two units, of three and two cycles, with one sensor channel; labels for both units and
  the table enriched with them; labels for the first unit only; labels of zero remaining
  cycles for both units, and of seven for a unit that has no record.\<close>

definition scenario_runs :: dataframe where
  "scenario_runs =
     [(''unit_number'', [Some 1, Some 1, Some 1, Some 2, Some 2]),
      (''time_in_cycles'', [Some 1, Some 2, Some 3, Some 1, Some 2]),
      (''T2'', [Some 518, Some 518, Some 518, Some 518, Some 518])]"

definition scenario_labels :: dataframe where
  "scenario_labels = [(''remaining_cycles'', [Some 10, Some 7]), (''unit_number'', [Some 1, Some 2])]"

definition scenario_labels_short :: dataframe where
  "scenario_labels_short = [(''remaining_cycles'', [Some 10]), (''unit_number'', [Some 1])]"

definition scenario_enriched :: dataframe where
  "scenario_enriched =
     [(''unit_number'', [Some 1, Some 1, Some 1, Some 2, Some 2]),
      (''time_in_cycles'', [Some 1, Some 2, Some 3, Some 1, Some 2]),
      (''T2'', [Some 518, Some 518, Some 518, Some 518, Some 518]),
      (''RUL'', [Some 12, Some 11, Some 10, Some 8, Some 7])]"

definition scenario_labels_zero :: dataframe where
  "scenario_labels_zero =
     [(''remaining_cycles'', [Some 0, Some 0, Some 7]), (''unit_number'', [Some 1, Some 2, Some 3])]"

text \<open>One unit of three cycles, with the greatest label a cell can hold, and the table enriched with it.\<close>

definition scenario_one_unit :: dataframe where
  "scenario_one_unit =
     [(''unit_number'', [Some 1, Some 1, Some 1]),
      (''time_in_cycles'', [Some 1, Some 2, Some 3])]"

definition scenario_labels_max :: dataframe where
  "scenario_labels_max = [(''remaining_cycles'', [Some 9223372036854775807]), (''unit_number'', [Some 1])]"

definition scenario_wrapped :: dataframe where
  "scenario_wrapped =
     [(''unit_number'', [Some 1, Some 1, Some 1]),
      (''time_in_cycles'', [Some 1, Some 2, Some 3]),
      (''RUL'', [Some (- 9223372036854775807), Some (- 9223372036854775808), Some 9223372036854775807])]"

section \<open>What the library operations compute\<close>

lemma rectangular_length:
  "rectangular df \<Longrightarrow> map_of df name = Some c \<Longrightarrow> length c = length_df df"
  by (auto simp: rectangular_def dest!: map_of_SomeD)

lemma runs_table_lengths:
  "runs_table df us ts \<Longrightarrow> length us = length_df df \<and> length ts = length_df df"
  using rectangular_length [of df "''unit_number''" "map Some us"]
        rectangular_length [of df "''time_in_cycles''" "map Some ts"]
  by (simp add: runs_table_def)

lemma count_present:
  "length ts = length us \<Longrightarrow>
   length (filter (\<lambda>(k, v). k = Some u \<and> (\<exists>t. v = Some t)) (zip (map Some us) (map Some ts)))
     = length (filter (\<lambda>v. v = u) us)"
  by (induction ts us rule: list_induct2) auto

lemma group_counts:
  assumes "runs_table df us ts"
  obtains g where "agg_count df ''unit_number'' ''max_cycles'' ''time_in_cycles'' = Inr g"
    and "left_join df g ''unit_number'' =
           Inr (df @ [(''max_cycles'', map (\<lambda>u. Some (of_nat (length (filter (\<lambda>v. v = u) us)))) us)])"
proof -
  define g where "g = [(''unit_number'', remdups (map Some us)),
                (''max_cycles'',
                 map (\<lambda>k. Some (of_nat (length (filter (\<lambda>(k', v). k' = k \<and> v \<noteq> None)
                                         (zip (map Some us) (map Some ts))))))
                     (remdups (map Some us)))]"
  have len: "length ts = length us"
    using runs_table_lengths [OF assms] by simp
  have "agg_count df ''unit_number'' ''max_cycles'' ''time_in_cycles'' = Inr g"
    using assms by (simp add: agg_count_def runs_table_def g_def)
  moreover have "left_join df g ''unit_number'' =
           Inr (df @ [(''max_cycles'', map (\<lambda>u. Some (of_nat (length (filter (\<lambda>v. v = u) us)))) us)])"
    using assms
    by (simp add: left_join_def runs_table_def get_column_names_def map_of_zip_map
        count_present [OF len] g_def)
  ultimately show thesis by (rule that)
qed

lemma update_fresh:
  "k \<notin> fst ` set al \<Longrightarrow> AList.update k v al = al @ [(k, v)]"
  by (induction al) auto

lemma filter_keep:
  "fst ` set al \<inter> S = {} \<Longrightarrow> filter (\<lambda>(name, c). name \<notin> S) al = al"
  by (induction al) auto

lemma filter_none:
  "fst ` set bl \<subseteq> S \<Longrightarrow> filter (\<lambda>(name, c). name \<notin> S) bl = []"
  by (induction bl) auto

lemma filter_scaffold:
  assumes "k \<notin> S" and "fst ` set bl \<subseteq> S" and "fst ` set al \<inter> S = {}"
  shows "filter (\<lambda>(name, c). name \<notin> S) (AList.update k v (al @ bl)) = AList.update k v al"
  using assms
proof (induction al)
  case Nil
  then have "k \<notin> fst ` set bl" by auto
  then have "AList.update k v bl = bl @ [(k, v)]" by (rule update_fresh)
  then show ?case using Nil.prems by (simp add: filter_none)
next
  case (Cons a al)
  then show ?case by (cases a) (auto simp: filter_none filter_keep)
qed

lemma map2_minus_cell:
  "map2 minus_cell (map (\<lambda>u. Some (f u)) us) (map Some ts) = map2 (\<lambda>u t. Some (f u - t)) us ts"
  by (simp add: zip_map_map minus_cell_def split_def)

lemma train_steps_value:
  assumes "runs_table df us ts"
  defines "mc \<equiv> map (\<lambda>u. Some (of_nat (length (filter (\<lambda>v. v = u) us)))) us"
  defines "rul \<equiv> map2 (\<lambda>u t. Some (of_nat (length (filter (\<lambda>v. v = u) us)) - t)) us ts"
  shows "evaluate (df @ [(''max_cycles'', mc)]) (Minus (Var ''max_cycles'') (Var ''time_in_cycles'')) = Inr rul"
    and "drop_columns (AList.update ''RUL'' rul (df @ [(''max_cycles'', mc)])) [''max_cycles''] =
           Inr (AList.update ''RUL'' rul df)"
proof -
  have fresh: "''max_cycles'' \<notin> fst ` set df"
    using assms(1) by (simp add: runs_table_def get_column_names_def)
  then have none: "map_of df ''max_cycles'' = None"
    by (simp add: map_of_eq_None_iff)
  have time: "map_of df ''time_in_cycles'' = Some (map Some ts)"
    using assms(1) by (simp add: runs_table_def)
  show "evaluate (df @ [(''max_cycles'', mc)]) (Minus (Var ''max_cycles'') (Var ''time_in_cycles'')) = Inr rul"
    by (simp add: none time map_add_def mc_def rul_def map2_minus_cell)
  have "filter (\<lambda>(name, c). name \<notin> {''max_cycles''}) (AList.update ''RUL'' rul (df @ [(''max_cycles'', mc)]))
          = AList.update ''RUL'' rul df"
    using fresh by (intro filter_scaffold) auto
  then show "drop_columns (AList.update ''RUL'' rul (df @ [(''max_cycles'', mc)])) [''max_cycles''] =
           Inr (AList.update ''RUL'' rul df)"
    by (simp add: drop_columns_def get_column_names_def dom_update)
qed

lemmas action_defs = bind_def new_def copy_def groupby_agg_count_def join_def drop_df_def add_virtual_column_def

lemma prepare_data_train_steps:
  "prepare_data data None s =
     (let d = s ! data in
      case agg_count d ''unit_number'' ''max_cycles'' ''time_in_cycles'' of
        Inl e \<Rightarrow> (Inl e, s @ [d])
      | Inr g \<Rightarrow>
     (case left_join d g ''unit_number'' of
        Inl e \<Rightarrow> (Inl e, s @ [d, g])
      | Inr j \<Rightarrow>
     (case evaluate j (Minus (Var ''max_cycles'') (Var ''time_in_cycles'')) of
        Inl e \<Rightarrow> (Inl e, s @ [d, g, j])
      | Inr c \<Rightarrow>
     (case drop_columns (AList.update ''RUL'' c j) [''max_cycles''] of
        Inl e \<Rightarrow> (Inl e, s @ [d, g, AList.update ''RUL'' c j])
      | Inr out \<Rightarrow> (Inr (length s + 3), s @ [d, g, AList.update ''RUL'' c j, out])))))"
  unfolding prepare_data_def Let_def
  by (simp add: action_defs nth_append list_update_append split: sum.splits del: evaluate.simps)

lemma prepare_data_test_steps:
  "prepare_data data (Some y) s =
     (let d = s ! data in
      case agg_count d ''unit_number'' ''max_cycles'' ''time_in_cycles'' of
        Inl e \<Rightarrow> (Inl e, s @ [d])
      | Inr g \<Rightarrow>
     (case left_join d g ''unit_number'' of
        Inl e \<Rightarrow> (Inl e, s @ [d, g])
      | Inr j \<Rightarrow>
     (case left_join j ((s @ [d, g, j]) ! y) ''unit_number'' of
        Inl e \<Rightarrow> (Inl e, s @ [d, g, j])
      | Inr k \<Rightarrow>
     (case evaluate k (Minus (Plus (Var ''max_cycles'') (Var ''remaining_cycles'')) (Var ''time_in_cycles'')) of
        Inl e \<Rightarrow> (Inl e, s @ [d, g, j, k])
      | Inr c \<Rightarrow>
     (case drop_columns (AList.update ''RUL'' c k) [''remaining_cycles'', ''max_cycles''] of
        Inl e \<Rightarrow> (Inl e, s @ [d, g, j, AList.update ''RUL'' c k])
      | Inr out \<Rightarrow> (Inr (length s + 4), s @ [d, g, j, AList.update ''RUL'' c k, out]))))))"
  unfolding prepare_data_def Let_def
  by (simp add: action_defs nth_append list_update_append split: sum.splits del: evaluate.simps)


lemma train_table:
  assumes "data < length s" and "runs_table (s ! data) us ts"
  shows "result (prepare_data data None s) =
           Inr (AList.update ''RUL''
                  (map2 (\<lambda>u t. Some (of_nat (length (filter (\<lambda>v. v = u) us)) - t)) us ts)
                  (s ! data))"
proof -
  obtain g where g: "agg_count (s ! data) ''unit_number'' ''max_cycles'' ''time_in_cycles'' = Inr g"
    "left_join (s ! data) g ''unit_number'' =
       Inr (s ! data @ [(''max_cycles'', map (\<lambda>u. Some (of_nat (length (filter (\<lambda>v. v = u) us)))) us)])"
    using group_counts [OF assms(2)] by blast
  have "prepare_data data None s =
          (Inr (length s + 3),
           s @ [s ! data, g,
                AList.update ''RUL'' (map2 (\<lambda>u t. Some (of_nat (length (filter (\<lambda>v. v = u) us)) - t)) us ts)
                  (s ! data @ [(''max_cycles'', map (\<lambda>u. Some (of_nat (length (filter (\<lambda>v. v = u) us)))) us)]),
                AList.update ''RUL'' (map2 (\<lambda>u t. Some (of_nat (length (filter (\<lambda>v. v = u) us)) - t)) us ts)
                  (s ! data)])"
    by (simp only: prepare_data_train_steps Let_def g train_steps_value [OF assms(2)] sum.case)
  then show ?thesis
    by (simp add: result_def nth_append)
qed


lemma map_of_zip_Some:
  "length rs = length ks \<Longrightarrow>
   map_of (zip (map Some ks) (map Some rs)) (Some u) = map_option Some (map_of (zip ks rs) u)"
  by (induction rs ks rule: list_induct2) auto

lemma map_of_joined:
  "name \<noteq> on \<Longrightarrow>
   map_of (map (\<lambda>(name, c). (name, f c)) (filter (\<lambda>(name, c). name \<noteq> on) al)) name =
     map_option f (map_of al name)"
  by (induction al) auto

lemma names_joined:
  "fst ` set (map (\<lambda>(name, c). (name, f c)) (filter (\<lambda>(name, c). name \<noteq> on) al)) =
     fst ` set al - {on}"
  by (induction al) auto

lemma map2_test_RUL:
  "length ts = length us \<Longrightarrow>
   map2 minus_cell (map2 plus_cell (map (\<lambda>u. Some (f u)) us) (map g us)) (map Some ts) =
     map2 (\<lambda>u t. case g u of None \<Rightarrow> None | Some r \<Rightarrow> Some (f u + r - t)) us ts"
  by (induction ts us rule: list_induct2) (auto simp: plus_cell_def minus_cell_def split: option.splits)

lemma test_steps_value:
  assumes "runs_table df us ts" and "labels_table y ks rs"
    and "''remaining_cycles'' \<notin> set (get_column_names df)"
  defines "j \<equiv> df @ [(''max_cycles'', map (\<lambda>u. Some (of_nat (length (filter (\<lambda>v. v = u) us)))) us)]"
  defines "rul \<equiv> map2 (\<lambda>u t. case map_of (zip ks rs) u of None \<Rightarrow> None
                | Some r \<Rightarrow> Some (of_nat (length (filter (\<lambda>v. v = u) us)) + r - t)) us ts"
  obtains k where "left_join j y ''unit_number'' = Inr k"
    and "evaluate k (Minus (Plus (Var ''max_cycles'') (Var ''remaining_cycles'')) (Var ''time_in_cycles'')) = Inr rul"
    and "drop_columns (AList.update ''RUL'' rul k) [''remaining_cycles'', ''max_cycles''] =
           Inr (AList.update ''RUL'' rul df)"
proof -
  define F :: "column \<Rightarrow> column" where
    "F = (\<lambda>c. map (\<lambda>k. case map_of (zip (map Some ks) c) k of None \<Rightarrow> None | Some v \<Rightarrow> v) (map Some us))"
  define B where "B = map (\<lambda>(name, c). (name, F c)) (filter (\<lambda>(name, c). name \<noteq> ''unit_number'') y)"
  define k where "k = j @ B"
  have len: "length ts = length us"
    using runs_table_lengths [OF assms(1)] by simp
  have fresh: "''max_cycles'' \<notin> fst ` set df" "''remaining_cycles'' \<notin> fst ` set df"
    using assms(1,3) by (simp_all add: runs_table_def get_column_names_def)
  have unit: "map_of df ''unit_number'' = Some (map Some us)"
    and time: "map_of df ''time_in_cycles'' = Some (map Some ts)"
    using assms(1) by (simp_all add: runs_table_def)
  have y: "map_of y ''unit_number'' = Some (map Some ks)"
    "map_of y ''remaining_cycles'' = Some (map Some rs)"
    "length rs = length ks" "distinct ks"
    "fst ` set y \<subseteq> {''unit_number'', ''remaining_cycles''}"
    using assms(2) by (simp_all add: labels_table_def get_column_names_def)
  have no_collision:
    "find (\<lambda>name. name \<noteq> ''unit_number'' \<and> name \<in> set (get_column_names j)) (get_column_names y) = None"
  proof -
    have "name = ''unit_number'' \<or> name \<notin> fst ` set j" if "name \<in> fst ` set y" for name
    proof -
      from that y(5) have "name = ''unit_number'' \<or> name = ''remaining_cycles''" by blast
      then show ?thesis using fresh(2) by (auto simp: j_def)
    qed
    then show ?thesis
      by (auto simp: find_None_iff get_column_names_def)
  qed
  have j_unit: "map_of j ''unit_number'' = Some (map Some us)"
    by (simp add: j_def unit)
  have join: "left_join j y ''unit_number'' = Inr k"
    using y(4)
    by (simp add: left_join_def no_collision k_def B_def F_def j_unit y(1) distinct_map)
  have namesB: "fst ` set B = fst ` set y - {''unit_number''}"
    unfolding B_def by (rule names_joined)
  have B_rem: "map_of B ''remaining_cycles'' = Some (F (map Some rs))"
    unfolding B_def by (simp add: map_of_joined y(2))
  have F_rem: "F (map Some rs) = map (\<lambda>u. map_of (zip ks rs) u) us"
    by (simp add: F_def map_of_zip_Some [OF y(3)] option.case_eq_if option.map_sel)
  have k_max: "map_of k ''max_cycles'' = Some (map (\<lambda>u. Some (of_nat (length (filter (\<lambda>v. v = u) us)))) us)"
    using fresh(1) by (simp add: k_def j_def map_add_def map_of_eq_None_iff [THEN iffD2])
  have k_rem: "map_of k ''remaining_cycles'' = Some (map (\<lambda>u. map_of (zip ks rs) u) us)"
    using fresh(2) by (simp add: k_def j_def map_add_def map_of_eq_None_iff [THEN iffD2] B_rem F_rem)
  have k_time: "map_of k ''time_in_cycles'' = Some (map Some ts)"
    by (simp add: k_def j_def time)
  have eval: "evaluate k (Minus (Plus (Var ''max_cycles'') (Var ''remaining_cycles'')) (Var ''time_in_cycles'')) = Inr rul"
    by (simp add: k_max k_rem k_time rul_def map2_test_RUL [OF len])
  have "''remaining_cycles'' \<in> fst ` set y"
    using y(2) by (metis map_of_eq_None_iff option.distinct(1))
  then have present: "''remaining_cycles'' \<in> fst ` set B"
    by (simp add: namesB)
  have "filter (\<lambda>(name, c). name \<notin> {''remaining_cycles'', ''max_cycles''})
          (AList.update ''RUL'' rul (df @ ([(''max_cycles'', map (\<lambda>u. Some (of_nat (length (filter (\<lambda>v. v = u) us)))) us)] @ B)))
          = AList.update ''RUL'' rul df"
    using fresh y(5) by (intro filter_scaffold) (auto simp: namesB)
  then have drop: "drop_columns (AList.update ''RUL'' rul k) [''remaining_cycles'', ''max_cycles''] =
           Inr (AList.update ''RUL'' rul df)"
    using present
    by (simp add: drop_columns_def get_column_names_def dom_update k_def j_def image_Un)
  show thesis
    using join eval drop by (rule that)
qed

lemma test_table:
  assumes "data < length s" and "y < length s"
    and "runs_table (s ! data) us ts" and "labels_table (s ! y) ks rs"
    and "''remaining_cycles'' \<notin> set (get_column_names (s ! data))"
  shows "result (prepare_data data (Some y) s) =
           Inr (AList.update ''RUL''
                  (map2 (\<lambda>u t. case map_of (zip ks rs) u of None \<Rightarrow> None
                     | Some r \<Rightarrow> Some (of_nat (length (filter (\<lambda>v. v = u) us)) + r - t)) us ts)
                  (s ! data))"
proof -
  define j where "j = s ! data @ [(''max_cycles'', map (\<lambda>u. Some (of_nat (length (filter (\<lambda>v. v = u) us)))) us)]"
  define rul where "rul = map2 (\<lambda>u t. case map_of (zip ks rs) u of None \<Rightarrow> None
                     | Some r \<Rightarrow> Some (of_nat (length (filter (\<lambda>v. v = u) us)) + r - t)) us ts"
  obtain g where g: "agg_count (s ! data) ''unit_number'' ''max_cycles'' ''time_in_cycles'' = Inr g"
    "left_join (s ! data) g ''unit_number'' = Inr j"
    using group_counts [OF assms(3)] unfolding j_def by blast
  have y: "(s @ [s ! data, g, j]) ! y = s ! y"
    using assms(2) by (simp add: nth_append)
  obtain k where k: "left_join j (s ! y) ''unit_number'' = Inr k"
    "evaluate k (Minus (Plus (Var ''max_cycles'') (Var ''remaining_cycles'')) (Var ''time_in_cycles'')) = Inr rul"
    "drop_columns (AList.update ''RUL'' rul k) [''remaining_cycles'', ''max_cycles''] =
           Inr (AList.update ''RUL'' rul (s ! data))"
    using test_steps_value [OF assms(3,4,5)] unfolding j_def rul_def by blast
  have "prepare_data data (Some y) s =
          (Inr (length s + 4),
           s @ [s ! data, g, j, AList.update ''RUL'' rul k, AList.update ''RUL'' rul (s ! data)])"
    by (simp only: prepare_data_test_steps Let_def g y k sum.case)
  then show ?thesis
    by (simp add: result_def nth_append rul_def)
qed



section \<open>The train variant\<close>

lemma sint_in_range:
  "- (2 ^ 63) \<le> k \<Longrightarrow> k < 2 ^ 63 \<Longrightarrow> sint (word_of_int k :: int64) = k"
  by (simp add: sint_sbintrunc' signed_take_bit_int_eq_self)

lemma sint_count_minus:
  assumes "- (2 ^ 63) \<le> int n - sint t" and "int n - sint t < 2 ^ 63"
  shows "sint ((of_nat n :: int64) - t) = int n - sint t"
proof -
  have "(of_nat n :: int64) - t = word_of_int (int n - sint t)" by simp
  then show ?thesis using assms by (simp only: sint_in_range)
qed

lemma sint_count_plus_minus:
  assumes "- (2 ^ 63) \<le> int n + sint r - sint t" and "int n + sint r - sint t < 2 ^ 63"
  shows "sint ((of_nat n :: int64) + r - t) = int n + sint r - sint t"
proof -
  have "(of_nat n :: int64) + r - t = word_of_int (int n + sint r - sint t)" by simp
  then show ?thesis using assms by (simp only: sint_in_range)
qed

lemma scenario_runs_table: "runs_table scenario_runs [1, 1, 1, 2, 2] [1, 2, 3, 1, 2]"
  by (simp add: runs_table_def rectangular_def length_df_def get_column_names_def scenario_runs_def)

lemma scenario_train_result:
  "result (prepare_data 0 None [scenario_runs]) =
     Inr [(''unit_number'', [Some 1, Some 1, Some 1, Some 2, Some 2]),
          (''time_in_cycles'', [Some 1, Some 2, Some 3, Some 1, Some 2]),
          (''T2'', [Some 518, Some 518, Some 518, Some 518, Some 518]),
          (''RUL'', [Some 2, Some 1, Some 0, Some 1, Some 0])]"
  by code_simp



text \<open>One unit of five cycles: the \<open>RUL\<close> values are 4, 3, 2, 1, 0; with the label 10 they are 14, ..., 10.\<close>

lemma five_cycles_train:
  "result (prepare_data 0 None
     [[(''unit_number'', [Some 1, Some 1, Some 1, Some 1, Some 1]),
       (''time_in_cycles'', [Some 1, Some 2, Some 3, Some 4, Some 5])]]) =
   Inr [(''unit_number'', [Some 1, Some 1, Some 1, Some 1, Some 1]),
        (''time_in_cycles'', [Some 1, Some 2, Some 3, Some 4, Some 5]),
        (''RUL'', [Some 4, Some 3, Some 2, Some 1, Some 0])]"
  by code_simp

lemma five_cycles_test:
  "result (prepare_data 0 (Some 1)
     [[(''unit_number'', [Some 1, Some 1, Some 1, Some 1, Some 1]),
       (''time_in_cycles'', [Some 1, Some 2, Some 3, Some 4, Some 5])],
      [(''remaining_cycles'', [Some 10]), (''unit_number'', [Some 1])]]) =
   Inr [(''unit_number'', [Some 1, Some 1, Some 1, Some 1, Some 1]),
        (''time_in_cycles'', [Some 1, Some 2, Some 3, Some 4, Some 5]),
        (''RUL'', [Some 14, Some 13, Some 12, Some 11, Some 10])]"
  by code_simp

section \<open>The test variant\<close>

lemma scenario_labels_table: "labels_table scenario_labels [1, 2] [10, 7]"
  by (simp add: labels_table_def get_column_names_def scenario_labels_def)

lemma scenario_labels_short_table: "labels_table scenario_labels_short [1] [10]"
  by (simp add: labels_table_def get_column_names_def scenario_labels_short_def)

lemma scenario_runs_no_remaining: "''remaining_cycles'' \<notin> set (get_column_names scenario_runs)"
  by (simp add: get_column_names_def scenario_runs_def)

lemma scenario_result:
  "result (prepare_data 0 (Some 1) [scenario_runs, scenario_labels]) = Inr scenario_enriched"
  by code_simp

lemma scenario_short_result:
  "result (prepare_data 0 (Some 1) [scenario_runs, scenario_labels_short]) =
     Inr [(''unit_number'', [Some 1, Some 1, Some 1, Some 2, Some 2]),
          (''time_in_cycles'', [Some 1, Some 2, Some 3, Some 1, Some 2]),
          (''T2'', [Some 518, Some 518, Some 518, Some 518, Some 518]),
          (''RUL'', [Some 12, Some 11, Some 10, None, None])]"
  by code_simp



text \<open>
  C3, as stated, fails: a run record of a unit without label raises nothing. Unit 2 has no
  label in \<open>scenario_labels_short\<close>; the call returns a table, and the \<open>RUL\<close> of the two
  records of unit 2 is missing.
\<close>

theorem prepare_data_missing_label_counterexample:
  "map_of scenario_labels_short ''unit_number'' = Some [Some 1]
   \<and> result (prepare_data 0 (Some 1) [scenario_runs, scenario_labels_short]) =
     Inr [(''unit_number'', [Some 1, Some 1, Some 1, Some 2, Some 2]),
          (''time_in_cycles'', [Some 1, Some 2, Some 3, Some 1, Some 2]),
          (''T2'', [Some 518, Some 518, Some 518, Some 518, Some 518]),
          (''RUL'', [Some 12, Some 11, Some 10, None, None])]"
  by code_simp

text \<open>
  C3, amended. With labels, a run record whose unit has no label record makes
  \<open>prepare_data\<close> signal no missing label: in the table that the call returns all rows are
  kept, and the \<open>RUL\<close> of that record is missing.
\<close>

theorem prepare_data_missing_label:
  assumes "data < length s" and "y < length s"
    and "runs_table (s ! data) us ts" and "labels_table (s ! y) ks rs"
    and "''remaining_cycles'' \<notin> set (get_column_names (s ! data))"
    and "i < length us" and "us ! i \<notin> set ks"
    and "result (prepare_data data (Some y) s) = Inr out"
  shows "\<exists>rul. map_of out ''unit_number'' = Some (map Some us)
           \<and> map_of out ''RUL'' = Some rul \<and> length rul = length us
           \<and> rul ! i = None"
proof -
  have len: "length ts = length us"
    using runs_table_lengths [OF assms(3)] by simp
  have cols: "map_of (s ! data) ''unit_number'' = Some (map Some us)"
    using assms(3) by (simp add: runs_table_def)
  have "length rs = length ks"
    using assms(4) by (simp add: labels_table_def)
  then have none: "map_of (zip ks rs) (us ! i) = None"
    using assms(7) by simp
  have out: "out = AList.update ''RUL''
                  (map2 (\<lambda>u t. case map_of (zip ks rs) u of None \<Rightarrow> None
                     | Some r \<Rightarrow> Some (of_nat (length (filter (\<lambda>v. v = u) us)) + r - t)) us ts)
                  (s ! data)"
    using assms(8) test_table [OF assms(1-5)] by simp
  show ?thesis
    using assms(6) len cols none
    by (simp add: out update_conv')
qed

theorem prepare_data_missing_label_witness:
  "(0::nat) < length [scenario_runs, scenario_labels_short] \<and> (1::nat) < length [scenario_runs, scenario_labels_short]
   \<and> runs_table ([scenario_runs, scenario_labels_short] ! 0) [1, 1, 1, 2, 2] [1, 2, 3, 1, 2]
   \<and> labels_table ([scenario_runs, scenario_labels_short] ! 1) [1] [10]
   \<and> ''remaining_cycles'' \<notin> set (get_column_names ([scenario_runs, scenario_labels_short] ! 0))
   \<and> (3::nat) < length [1, 1, 1, 2, 2 :: int64]
   \<and> [1, 1, 1, 2, 2] ! 3 \<notin> set [1 :: int64]
   \<and> (\<exists>out rul. result (prepare_data 0 (Some 1) [scenario_runs, scenario_labels_short]) = Inr out
         \<and> map_of out ''RUL'' = Some rul \<and> rul ! 3 = None)"
proof -
  have h: "runs_table ([scenario_runs, scenario_labels_short] ! 0) [1, 1, 1, 2, 2] [1, 2, 3, 1, 2]"
    "labels_table ([scenario_runs, scenario_labels_short] ! 1) [1] [10]"
    "''remaining_cycles'' \<notin> set (get_column_names ([scenario_runs, scenario_labels_short] ! 0))"
    by (simp_all add: scenario_runs_table scenario_labels_short_table scenario_runs_no_remaining)
  show ?thesis
    using h scenario_short_result
      prepare_data_missing_label [where data = 0 and s = "[scenario_runs, scenario_labels_short]"
        and y = 1 and us = "[1, 1, 1, 2, 2]" and ts = "[1, 2, 3, 1, 2]" and ks = "[1]" and rs = "[10]"
        and i = 3, OF _ _ _ _ _ _ _ scenario_short_result]
    by auto
qed

text \<open>
  C10. With a label of zero remaining cycles for every unit that occurs in the input
  (whatever the labels of other units), the \<open>RUL\<close> column of the table returned is the one
  of the table returned without labels.
\<close>

theorem prepare_data_zero_labels:
  assumes "data < length s" and "y < length s"
    and "runs_table (s ! data) us ts" and "labels_table (s ! y) ks rs"
    and "''remaining_cycles'' \<notin> set (get_column_names (s ! data))"
    and "\<forall>u \<in> set us. map_of (zip ks rs) u = Some 0"
    and "result (prepare_data data (Some y) s) = Inr out"
    and "result (prepare_data data None s) = Inr out'"
  shows "\<exists>rul. map_of out ''RUL'' = Some rul \<and> map_of out' ''RUL'' = Some rul
           \<and> length rul = length us"
proof -
  have len: "length ts = length us"
    using runs_table_lengths [OF assms(3)] by simp
  have "map2 (\<lambda>u t. case map_of (zip ks rs) u of None \<Rightarrow> None
            | Some r \<Rightarrow> Some (of_nat (length (filter (\<lambda>v. v = u) us)) + r - t)) us ts
        = map2 (\<lambda>u t. Some (of_nat (length (filter (\<lambda>v. v = u) us)) - t)) us ts"
    using assms(6) by (intro map_cong) (auto dest: set_zip_leftD)
  moreover have "out = AList.update ''RUL''
                  (map2 (\<lambda>u t. case map_of (zip ks rs) u of None \<Rightarrow> None
                     | Some r \<Rightarrow> Some (of_nat (length (filter (\<lambda>v. v = u) us)) + r - t)) us ts)
                  (s ! data)"
    using assms(7) test_table [OF assms(1-5)] by simp
  moreover have "out' = AList.update ''RUL''
                  (map2 (\<lambda>u t. Some (of_nat (length (filter (\<lambda>v. v = u) us)) - t)) us ts)
                  (s ! data)"
    using assms(8) train_table [OF assms(1,3)] by simp
  ultimately show ?thesis
    using len by (simp add: update_conv')
qed

lemma scenario_labels_zero_table: "labels_table scenario_labels_zero [1, 2, 3] [0, 0, 7]"
  by (simp add: labels_table_def get_column_names_def scenario_labels_zero_def)

lemma scenario_zero_result:
  "result (prepare_data 0 (Some 1) [scenario_runs, scenario_labels_zero]) =
     Inr [(''unit_number'', [Some 1, Some 1, Some 1, Some 2, Some 2]),
          (''time_in_cycles'', [Some 1, Some 2, Some 3, Some 1, Some 2]),
          (''T2'', [Some 518, Some 518, Some 518, Some 518, Some 518]),
          (''RUL'', [Some 2, Some 1, Some 0, Some 1, Some 0])]"
  by code_simp

lemma scenario_zero_train_result:
  "result (prepare_data 0 None [scenario_runs, scenario_labels_zero]) =
     Inr [(''unit_number'', [Some 1, Some 1, Some 1, Some 2, Some 2]),
          (''time_in_cycles'', [Some 1, Some 2, Some 3, Some 1, Some 2]),
          (''T2'', [Some 518, Some 518, Some 518, Some 518, Some 518]),
          (''RUL'', [Some 2, Some 1, Some 0, Some 1, Some 0])]"
  by code_simp

theorem prepare_data_zero_labels_witness:
  "(0::nat) < length [scenario_runs, scenario_labels_zero] \<and> (1::nat) < length [scenario_runs, scenario_labels_zero]
   \<and> runs_table ([scenario_runs, scenario_labels_zero] ! 0) [1, 1, 1, 2, 2] [1, 2, 3, 1, 2]
   \<and> labels_table ([scenario_runs, scenario_labels_zero] ! 1) [1, 2, 3] [0, 0, 7]
   \<and> ''remaining_cycles'' \<notin> set (get_column_names ([scenario_runs, scenario_labels_zero] ! 0))
   \<and> list_all (\<lambda>u. map_of (zip [1, 2, 3 :: int64] [0, 0, 7 :: int64]) u = Some 0) [1, 1, 1, 2, 2]
   \<and> (\<exists>out out' rul. result (prepare_data 0 (Some 1) [scenario_runs, scenario_labels_zero]) = Inr out
         \<and> result (prepare_data 0 None [scenario_runs, scenario_labels_zero]) = Inr out'
         \<and> map_of out ''RUL'' = Some rul \<and> map_of out' ''RUL'' = Some rul)"
proof -
  have h: "runs_table ([scenario_runs, scenario_labels_zero] ! 0) [1, 1, 1, 2, 2] [1, 2, 3, 1, 2]"
    "labels_table ([scenario_runs, scenario_labels_zero] ! 1) [1, 2, 3] [0, 0, 7]"
    "''remaining_cycles'' \<notin> set (get_column_names ([scenario_runs, scenario_labels_zero] ! 0))"
    by (simp_all add: scenario_runs_table scenario_labels_zero_table scenario_runs_no_remaining)
  have z: "\<forall>u \<in> set [1, 1, 1, 2, 2 :: int64]. map_of (zip [1, 2, 3 :: int64] [0, 0, 7 :: int64]) u = Some 0"
    by simp
  show ?thesis
    using h z scenario_zero_result scenario_zero_train_result
      prepare_data_zero_labels [where data = 0 and s = "[scenario_runs, scenario_labels_zero]"
        and y = 1 and us = "[1, 1, 1, 2, 2]" and ts = "[1, 2, 3, 1, 2]" and ks = "[1, 2, 3]"
        and rs = "[0, 0, 7]", OF _ _ _ _ _ z scenario_zero_result scenario_zero_train_result]
    by auto
qed

section \<open>Units whose cycles are contiguous from 1\<close>

lemma set_cycles_of:
  "length ts = length us \<Longrightarrow> set (cycles_of us ts u) = {ts ! j | j. j < length us \<and> us ! j = u}"
  by (auto simp: cycles_of_def set_zip image_iff)

lemma length_cycles_of:
  "length ts = length us \<Longrightarrow> length (cycles_of us ts u) = length (filter (\<lambda>v. v = u) us)"
  unfolding cycles_of_def by (induction ts us rule: list_induct2) auto

lemma cycle_bounds:
  assumes "length ts = length us" and "contiguous_from_1 us ts" and "i < length us"
  shows "1 \<le> sint (ts ! i) \<and> sint (ts ! i) \<le> int (length (filter (\<lambda>v. v = us ! i) us))"
proof -
  have "us ! i \<in> set us" using assms(3) by simp
  then have "sint ` set (cycles_of us ts (us ! i)) = {1..int (length (cycles_of us ts (us ! i)))}"
    using assms(2) by (simp add: contiguous_from_1_def)
  moreover have "ts ! i \<in> set (cycles_of us ts (us ! i))"
    using assms(3) by (auto simp: set_cycles_of [OF assms(1)])
  ultimately have "sint (ts ! i) \<in> {1..int (length (cycles_of us ts (us ! i)))}"
    by blast
  then show ?thesis
    by (simp add: length_cycles_of [OF assms(1)])
qed

lemma count_bounds:
  assumes "length ts = length us" and "contiguous_from_1 us ts" and "i < length us"
  shows "1 \<le> int (length (filter (\<lambda>v. v = us ! i) us))
       \<and> int (length (filter (\<lambda>v. v = us ! i) us)) < 2 ^ 63
       \<and> (\<exists>j<length us. us ! j = us ! i \<and> sint (ts ! j) = int (length (filter (\<lambda>v. v = us ! i) us)))"
proof -
  let ?n = "length (filter (\<lambda>v. v = us ! i) us)"
  have "us ! i \<in> set us" using assms(3) by simp
  then have eq: "sint ` set (cycles_of us ts (us ! i)) = {1..int ?n}"
    using assms(2) by (simp add: contiguous_from_1_def length_cycles_of [OF assms(1)])
  have one: "1 \<le> int ?n"
    using cycle_bounds [OF assms] by linarith
  then have "int ?n \<in> sint ` set (cycles_of us ts (us ! i))"
    unfolding eq by simp
  then obtain j where j: "j < length us" "us ! j = us ! i" "sint (ts ! j) = int ?n"
    by (auto simp: set_cycles_of [OF assms(1)])
  have "sint (ts ! j) < 2 ^ 63"
    using sint_lt [of "ts ! j"] by simp
  then show ?thesis
    using one j by auto
qed

lemma last_cycle:
  assumes "length ts = length us" and "contiguous_from_1 us ts" and "i < length us"
    and "\<forall>j<length us. us ! j = us ! i \<longrightarrow> sint (ts ! j) \<le> sint (ts ! i)"
  shows "ts ! i = of_nat (length (filter (\<lambda>v. v = us ! i) us))"
proof -
  let ?n = "length (filter (\<lambda>v. v = us ! i) us)"
  obtain j where "j < length us" "us ! j = us ! i" "sint (ts ! j) = int ?n"
    using count_bounds [OF assms(1-3)] by blast
  then have "int ?n \<le> sint (ts ! i)"
    using assms(4) by auto
  then have eq: "sint (ts ! i) = int ?n"
    using cycle_bounds [OF assms(1-3)] by linarith
  have "ts ! i = word_of_int (sint (ts ! i))" by simp
  then show ?thesis unfolding eq by simp
qed

lemma train_RUL_nonneg:
  assumes "length ts = length us" and "contiguous_from_1 us ts" and "i < length us"
  shows "0 \<le> sint ((of_nat (length (filter (\<lambda>v. v = us ! i) us)) :: int64) - ts ! i)"
proof -
  let ?n = "length (filter (\<lambda>v. v = us ! i) us)"
  have b: "1 \<le> sint (ts ! i)" "sint (ts ! i) \<le> int ?n" "int ?n < 2 ^ 63"
    using cycle_bounds [OF assms] count_bounds [OF assms] by simp_all
  have "sint ((of_nat ?n :: int64) - ts ! i) = int ?n - sint (ts ! i)"
    using b by (intro sint_count_minus) linarith+
  then show ?thesis using b by simp
qed

lemma test_RUL_nonneg:
  assumes "length ts = length us" and "contiguous_from_1 us ts" and "i < length us"
    and "0 \<le> sint r" and "int (length (filter (\<lambda>v. v = us ! i) us)) + sint r < 2 ^ 63"
  shows "0 \<le> sint ((of_nat (length (filter (\<lambda>v. v = us ! i) us)) :: int64) + r - ts ! i)"
proof -
  let ?n = "length (filter (\<lambda>v. v = us ! i) us)"
  have b: "1 \<le> sint (ts ! i)" "sint (ts ! i) \<le> int ?n"
    using cycle_bounds [OF assms(1-3)] by simp_all
  have "sint ((of_nat ?n :: int64) + r - ts ! i) = int ?n + sint r - sint (ts ! i)"
    using b assms(4,5) by (intro sint_count_plus_minus) linarith+
  then show ?thesis using b assms(4) by simp
qed

text \<open>
  C6. Without labels, when the cycles of every unit are \<open>1, ..., n\<close>, in the table that
  \<open>prepare_data\<close> returns the row of a unit with the greatest \<open>time_in_cycles\<close> has \<open>RUL = 0\<close>.
\<close>

theorem prepare_data_train_last_cycle:
  assumes "data < length s" and "runs_table (s ! data) us ts"
    and "contiguous_from_1 us ts"
    and "i < length us" and "\<forall>j<length us. us ! j = us ! i \<longrightarrow> sint (ts ! j) \<le> sint (ts ! i)"
    and "result (prepare_data data None s) = Inr out"
  shows "\<exists>rul. map_of out ''unit_number'' = Some (map Some us)
           \<and> map_of out ''time_in_cycles'' = Some (map Some ts)
           \<and> map_of out ''RUL'' = Some rul \<and> rul ! i = Some 0"
proof -
  have len: "length ts = length us"
    using runs_table_lengths [OF assms(2)] by simp
  have cols: "map_of (s ! data) ''unit_number'' = Some (map Some us)"
    "map_of (s ! data) ''time_in_cycles'' = Some (map Some ts)"
    using assms(2) by (simp_all add: runs_table_def)
  have out: "out = AList.update ''RUL''
                  (map2 (\<lambda>u t. Some (of_nat (length (filter (\<lambda>v. v = u) us)) - t)) us ts)
                  (s ! data)"
    using assms(6) train_table [OF assms(1,2)] by simp
  show ?thesis
    using assms(4) len cols last_cycle [OF len assms(3,4,5)]
    by (simp add: out update_conv')
qed

lemma scenario_contiguous: "contiguous_from_1 [1, 1, 1, 2, 2] [1, 2, 3, 1, 2]"
  by (auto simp: contiguous_from_1_def cycles_of_def)

theorem prepare_data_train_last_cycle_witness:
  "(0::nat) < length [scenario_runs] \<and> runs_table ([scenario_runs] ! 0) [1, 1, 1, 2, 2] [1, 2, 3, 1, 2]
   \<and> contiguous_from_1 [1, 1, 1, 2, 2] [1, 2, 3, 1, 2]
   \<and> (2::nat) < length [1, 1, 1, 2, 2 :: int64]
   \<and> \<not> (\<exists>j<length [1, 1, 1, 2, 2 :: int64]. [1, 1, 1, 2, 2 :: int64] ! j = [1, 1, 1, 2, 2] ! 2
         \<and> sint ([1, 2, 3, 1, 2 :: int64] ! 2) < sint ([1, 2, 3, 1, 2 :: int64] ! j))
   \<and> (\<exists>out rul. result (prepare_data 0 None [scenario_runs]) = Inr out
         \<and> map_of out ''RUL'' = Some rul \<and> rul ! 2 = Some 0)"
proof -
  have h: "runs_table ([scenario_runs] ! 0) [1, 1, 1, 2, 2] [1, 2, 3, 1, 2]"
    by (simp add: scenario_runs_table)
  have m: "\<forall>j<length [1, 1, 1, 2, 2 :: int64]. [1, 1, 1, 2, 2 :: int64] ! j = [1, 1, 1, 2, 2] ! 2
         \<longrightarrow> sint ([1, 2, 3, 1, 2 :: int64] ! j) \<le> sint ([1, 2, 3, 1, 2 :: int64] ! 2)"
    by (simp add: All_less_Suc2 nth_Cons')
  then have m': "\<not> (\<exists>j<length [1, 1, 1, 2, 2 :: int64]. [1, 1, 1, 2, 2 :: int64] ! j = [1, 1, 1, 2, 2] ! 2
         \<and> sint ([1, 2, 3, 1, 2 :: int64] ! 2) < sint ([1, 2, 3, 1, 2 :: int64] ! j))"
    by (meson not_less)
  have "\<exists>rul. map_of [(''unit_number'', [Some 1, Some 1, Some 1, Some 2, Some 2]),
          (''time_in_cycles'', [Some 1, Some 2, Some 3, Some 1, Some 2]),
          (''T2'', [Some 518, Some 518, Some 518, Some 518, Some 518]),
          (''RUL'', [Some 2, Some 1, Some 0, Some 1, Some (0 :: int64)])] ''RUL'' = Some rul \<and> rul ! 2 = Some 0"
    using h scenario_contiguous
      prepare_data_train_last_cycle [where data = 0 and s = "[scenario_runs]"
        and us = "[1, 1, 1, 2, 2]" and ts = "[1, 2, 3, 1, 2]" and i = 2,
        OF _ _ _ _ m scenario_train_result]
    by auto
  then show ?thesis
    using h m' scenario_contiguous scenario_train_result by simp
qed

lemma scenario_one_unit_table: "runs_table scenario_one_unit [1, 1, 1] [1, 2, 3]"
  by (simp add: runs_table_def rectangular_def length_df_def get_column_names_def scenario_one_unit_def)

lemma scenario_one_unit_contiguous: "contiguous_from_1 [1, 1, 1] [1, 2, 3]"
  by (auto simp: contiguous_from_1_def cycles_of_def)

text \<open>
  C7, as stated, fails: the sum of the row count and a label wraps around in 64 bits. One
  unit of cycles 1, 2, 3 with the label \<open>2^63 - 1\<close>, which is not negative, is a
  well-formed input, and the first two \<open>RUL\<close> values returned are negative.
\<close>

theorem prepare_data_RUL_nonneg_counterexample:
  "runs_table scenario_one_unit [1, 1, 1] [1, 2, 3]
   \<and> contiguous_from_1 [1, 1, 1] [1, 2, 3]
   \<and> labels_table scenario_labels_max [1] [9223372036854775807]
   \<and> 0 \<le> sint (9223372036854775807 :: int64)
   \<and> result (prepare_data 0 (Some 1) [scenario_one_unit, scenario_labels_max]) = Inr scenario_wrapped
   \<and> map_of scenario_wrapped ''RUL'' =
       Some [Some (- 9223372036854775807), Some (- 9223372036854775808), Some 9223372036854775807]
   \<and> sint (- 9223372036854775807 :: int64) = - 9223372036854775807
   \<and> sint (- 9223372036854775808 :: int64) = - 9223372036854775808"
proof -
  have "result (prepare_data 0 (Some 1) [scenario_one_unit, scenario_labels_max]) = Inr scenario_wrapped"
    by code_simp
  moreover have "labels_table scenario_labels_max [1] [9223372036854775807]"
    by (simp add: labels_table_def get_column_names_def scenario_labels_max_def)
  moreover have "map_of scenario_wrapped ''RUL'' =
       Some [Some (- 9223372036854775807), Some (- 9223372036854775808), Some 9223372036854775807]"
    by (simp add: scenario_wrapped_def)
  ultimately show ?thesis
    using scenario_one_unit_table scenario_one_unit_contiguous by simp
qed

text \<open>
  C7, amended. When the cycles of every unit are \<open>1, ..., n\<close> and, with labels, every unit
  of the input has a label that is not negative and whose sum with the row count of the
  unit is below \<open>2^63\<close>, every \<open>RUL\<close> of the table that \<open>prepare_data\<close> returns is present and
  not negative; without labels it is 0 at the row of a unit with the greatest
  \<open>time_in_cycles\<close>.
\<close>

theorem prepare_data_RUL_nonneg:
  assumes "data < length s" and "runs_table (s ! data) us ts"
    and "contiguous_from_1 us ts"
    and "case y of None \<Rightarrow> True
         | Some l \<Rightarrow> l < length s \<and> labels_table (s ! l) ks rs
             \<and> ''remaining_cycles'' \<notin> set (get_column_names (s ! data))
             \<and> (\<forall>u \<in> set us. \<exists>r. map_of (zip ks rs) u = Some r \<and> 0 \<le> sint r
                    \<and> int (length (filter (\<lambda>v. v = u) us)) + sint r < 2 ^ 63)"
    and "result (prepare_data data y s) = Inr out"
  shows "\<exists>rul. map_of out ''RUL'' = Some rul \<and> length rul = length us
           \<and> (\<forall>i<length us. \<exists>v. rul ! i = Some v \<and> 0 \<le> sint v)
           \<and> (y = None \<longrightarrow>
                (\<forall>i<length us. (\<forall>j<length us. us ! j = us ! i \<longrightarrow> sint (ts ! j) \<le> sint (ts ! i))
                   \<longrightarrow> rul ! i = Some 0))"
proof (cases y)
  case None
  have len: "length ts = length us"
    using runs_table_lengths [OF assms(2)] by simp
  have out: "out = AList.update ''RUL''
                  (map2 (\<lambda>u t. Some (of_nat (length (filter (\<lambda>v. v = u) us)) - t)) us ts)
                  (s ! data)"
    using assms(5) train_table [OF assms(1,2)] unfolding None by simp
  show ?thesis
    using len train_RUL_nonneg [OF len assms(3)] last_cycle [OF len assms(3)]
    by (simp add: None out update_conv')
next
  case (Some l)
  have len: "length ts = length us"
    using runs_table_lengths [OF assms(2)] by simp
  from assms(4) Some have l: "l < length s" "labels_table (s ! l) ks rs"
    "''remaining_cycles'' \<notin> set (get_column_names (s ! data))"
    and labelled: "\<forall>u \<in> set us. \<exists>r. map_of (zip ks rs) u = Some r \<and> 0 \<le> sint r
                    \<and> int (length (filter (\<lambda>v. v = u) us)) + sint r < 2 ^ 63"
    by simp_all
  have out: "out = AList.update ''RUL''
                  (map2 (\<lambda>u t. case map_of (zip ks rs) u of None \<Rightarrow> None
                     | Some r \<Rightarrow> Some (of_nat (length (filter (\<lambda>v. v = u) us)) + r - t)) us ts)
                  (s ! data)"
    using assms(5) test_table [OF assms(1) l(1) assms(2) l(2,3)] unfolding Some by simp
  have "\<exists>v. (case map_of (zip ks rs) (us ! i) of None \<Rightarrow> None
               | Some r \<Rightarrow> Some (of_nat (length (filter (\<lambda>v. v = us ! i) us)) + r - ts ! i)) = Some v
             \<and> 0 \<le> sint v" if "i < length us" for i
  proof -
    have "us ! i \<in> set us" using that by simp
    then obtain r where r: "map_of (zip ks rs) (us ! i) = Some r" "0 \<le> sint r"
      "int (length (filter (\<lambda>v. v = us ! i) us)) + sint r < 2 ^ 63"
      using labelled by blast
    show ?thesis
      using r(1) test_RUL_nonneg [OF len assms(3) that r(2,3)] by simp
  qed
  then show ?thesis
    using len by (simp add: Some out update_conv')
qed

theorem prepare_data_RUL_nonneg_witness:
  "(0::nat) < length [scenario_runs, scenario_labels]
   \<and> runs_table ([scenario_runs, scenario_labels] ! 0) [1, 1, 1, 2, 2] [1, 2, 3, 1, 2]
   \<and> contiguous_from_1 [1, 1, 1, 2, 2] [1, 2, 3, 1, 2]
   \<and> (1::nat) < length [scenario_runs, scenario_labels]
   \<and> labels_table ([scenario_runs, scenario_labels] ! 1) [1, 2] [10, 7]
   \<and> ''remaining_cycles'' \<notin> set (get_column_names ([scenario_runs, scenario_labels] ! 0))
   \<and> list_all (\<lambda>u. \<exists>r. map_of (zip [1, 2 :: int64] [10, 7 :: int64]) u = Some r \<and> 0 \<le> sint r
                \<and> int (length (filter (\<lambda>v. v = u) [1, 1, 1, 2, 2])) + sint r < 2 ^ 63) [1, 1, 1, 2, 2]
   \<and> result (prepare_data 0 (Some 1) [scenario_runs, scenario_labels]) = Inr scenario_enriched
   \<and> (\<exists>rul. map_of scenario_enriched ''RUL'' = Some rul
         \<and> (\<forall>i<5. \<exists>v. rul ! i = Some v \<and> 0 \<le> sint v))
   \<and> (\<exists>out rul. result (prepare_data 0 None [scenario_runs]) = Inr out
         \<and> map_of out ''RUL'' = Some rul
         \<and> (\<forall>i<5. \<exists>v. rul ! i = Some v \<and> 0 \<le> sint v) \<and> rul ! 2 = Some 0 \<and> rul ! 4 = Some 0)"
proof -
  have h: "runs_table ([scenario_runs, scenario_labels] ! 0) [1, 1, 1, 2, 2] [1, 2, 3, 1, 2]"
    "labels_table ([scenario_runs, scenario_labels] ! 1) [1, 2] [10, 7]"
    "''remaining_cycles'' \<notin> set (get_column_names ([scenario_runs, scenario_labels] ! 0))"
    by (simp_all add: scenario_runs_table scenario_labels_table scenario_runs_no_remaining)
  have lab: "\<forall>u \<in> set [1, 1, 1, 2, 2 :: int64].
      \<exists>r. map_of (zip [1, 2 :: int64] [10, 7 :: int64]) u = Some r \<and> 0 \<le> sint r
         \<and> int (length (filter (\<lambda>v. v = u) [1, 1, 1, 2, 2])) + sint r < 2 ^ 63"
    by simp
  have test: "\<exists>rul. map_of scenario_enriched ''RUL'' = Some rul
         \<and> (\<forall>i<5. \<exists>v. rul ! i = Some v \<and> 0 \<le> sint v)"
    using h lab scenario_contiguous scenario_result
      prepare_data_RUL_nonneg [where data = 0 and s = "[scenario_runs, scenario_labels]"
        and us = "[1, 1, 1, 2, 2]" and ts = "[1, 2, 3, 1, 2]" and y = "Some 1"
        and ks = "[1, 2]" and rs = "[10, 7]" and out = scenario_enriched]
    by auto
  have last: "\<forall>j<length [1, 1, 1, 2, 2 :: int64]. [1, 1, 1, 2, 2 :: int64] ! j = [1, 1, 1, 2, 2] ! i
         \<longrightarrow> sint ([1, 2, 3, 1, 2 :: int64] ! j) \<le> sint ([1, 2, 3, 1, 2 :: int64] ! i)"
    if "i = 2 \<or> i = 4" for i :: nat
    using that by (auto simp: All_less_Suc2 nth_Cons')
  have h1: "runs_table ([scenario_runs] ! 0) [1, 1, 1, 2, 2] [1, 2, 3, 1, 2]"
    by (simp add: scenario_runs_table)
  have train: "\<exists>out rul. result (prepare_data 0 None [scenario_runs]) = Inr out
         \<and> map_of out ''RUL'' = Some rul
         \<and> (\<forall>i<5. \<exists>v. rul ! i = Some v \<and> 0 \<le> sint v) \<and> rul ! 2 = Some 0 \<and> rul ! 4 = Some 0"
    using h1 scenario_contiguous last [of 2] last [of 4] scenario_train_result
      prepare_data_RUL_nonneg [where data = 0 and s = "[scenario_runs]"
        and us = "[1, 1, 1, 2, 2]" and ts = "[1, 2, 3, 1, 2]" and y = None,
        OF _ _ _ _ scenario_train_result]
    by auto
  show ?thesis
    using h lab scenario_contiguous scenario_result test train by simp
qed

section \<open>Rows and columns of the result\<close>

lemma agg_count_Inr:
  assumes "agg_count df by name x = Inr g"
  obtains ks cs where "map_of df by = Some ks" and "g = [(by, remdups ks), (name, cs)]"
  using assms by (auto simp: agg_count_def split: option.splits)

lemma no_collision_iff:
  "find (\<lambda>name. name \<noteq> on \<and> name \<in> set (get_column_names left)) (get_column_names right) = None
   \<longleftrightarrow> (fst ` set right - {on}) \<inter> fst ` set left = {}"
proof -
  have "find (\<lambda>name. name \<noteq> on \<and> name \<in> set (map fst left)) (map fst right) = None
        \<longleftrightarrow> \<not> (\<exists>name. name \<in> set (map fst right) \<and> (name \<noteq> on \<and> name \<in> set (map fst left)))"
    by (rule find_None_iff)
  then show ?thesis
    unfolding get_column_names_def set_map by blast
qed

lemma left_join_Inr:
  assumes "left_join left right on = Inr j"
  obtains lk B where "map_of left on = Some lk" and "j = left @ B"
    and "fst ` set B = fst ` set right - {on}" and "fst ` set B \<inter> fst ` set left = {}"
    and "\<forall>c \<in> snd ` set B. length c = length lk"
proof -
  have free: "(fst ` set right - {on}) \<inter> fst ` set left = {}"
    using assms unfolding no_collision_iff [symmetric]
    by (simp add: left_join_def split: option.splits)
  have "\<exists>lk rk. map_of left on = Some lk
    \<and> left @ map (\<lambda>(name, c). (name, map (\<lambda>k. case map_of (zip rk c) k of None \<Rightarrow> None | Some v \<Rightarrow> v) lk))
                      (filter (\<lambda>(name, c). name \<noteq> on) right) = j"
    using assms by (simp add: left_join_def split: option.splits if_splits) blast
  then obtain lk rk where lk: "map_of left on = Some lk"
    and j: "j = left @ map (\<lambda>(name, c). (name, map (\<lambda>k. case map_of (zip rk c) k of None \<Rightarrow> None | Some v \<Rightarrow> v) lk))
                      (filter (\<lambda>(name, c). name \<noteq> on) right)"
    by blast
  define B where "B = map (\<lambda>(name, c). (name, map (\<lambda>k. case map_of (zip rk c) k of None \<Rightarrow> None | Some v \<Rightarrow> v) lk))
                      (filter (\<lambda>(name, c). name \<noteq> on) right)"
  have names: "fst ` set B = fst ` set right - {on}"
    unfolding B_def by (rule names_joined)
  have lengths: "\<forall>c \<in> snd ` set B. length c = length lk"
    unfolding B_def by (induction right) auto
  show thesis
  proof (rule that [of lk B])
    show "map_of left on = Some lk" by (rule lk)
    show "j = left @ B" using j by (simp only: B_def)
    show "fst ` set B = fst ` set right - {on}" by (rule names)
    show "fst ` set B \<inter> fst ` set left = {}" using free by (simp only: names)
    show "\<forall>c \<in> snd ` set B. length c = length lk" by (rule lengths)
  qed
qed

lemma evaluate_length:
  "\<forall>c \<in> snd ` set df. length c = n \<Longrightarrow> evaluate df e = Inr c \<Longrightarrow> length c = n"
proof (induction e arbitrary: c)
  case (Var name)
  then show ?case
    by (auto split: option.splits dest!: map_of_SomeD)
next
  case (Plus a b)
  then show ?case by (auto split: sum.splits)
next
  case (Minus a b)
  then show ?case by (auto split: sum.splits)
next
  case (AstypeInt a)
  then show ?case by simp
qed

lemma drop_columns_Inr:
  "drop_columns df names = Inr out \<Longrightarrow> out = filter (\<lambda>(name, c). name \<notin> set names) df"
  by (auto simp: drop_columns_def split: option.splits)


lemma train_Inr:
  assumes "result (prepare_data data None s) = Inr out"
  obtains lk B c where "map_of (s ! data) ''unit_number'' = Some lk"
    and "fst ` set B = {''max_cycles''}"
    and "fst ` set B \<inter> fst ` set (s ! data) = {}"
    and "\<forall>col \<in> snd ` set B. length col = length lk"
    and "evaluate (s ! data @ B) (Minus (Var ''max_cycles'') (Var ''time_in_cycles'')) = Inr c"
    and "out = filter (\<lambda>(name, col). name \<notin> {''max_cycles''}) (AList.update ''RUL'' c (s ! data @ B))"
proof -
  obtain g j c where g: "agg_count (s ! data) ''unit_number'' ''max_cycles'' ''time_in_cycles'' = Inr g"
    and j: "left_join (s ! data) g ''unit_number'' = Inr j"
    and c: "evaluate j (Minus (Var ''max_cycles'') (Var ''time_in_cycles'')) = Inr c"
    and out: "drop_columns (AList.update ''RUL'' c j) [''max_cycles''] = Inr out"
    using assms
    by (simp add: prepare_data_train_steps Let_def result_def nth_append
        split: sum.splits del: evaluate.simps)
  obtain ks cs where "g = [(''unit_number'', remdups ks), (''max_cycles'', cs)]"
    using g by (rule agg_count_Inr)
  then have names_g: "fst ` set g - {''unit_number''} = {''max_cycles''}"
    by auto
  obtain lk B where "map_of (s ! data) ''unit_number'' = Some lk" and "j = s ! data @ B"
    and "fst ` set B = fst ` set g - {''unit_number''}" and "fst ` set B \<inter> fst ` set (s ! data) = {}"
    and "\<forall>c \<in> snd ` set B. length c = length lk"
    using j by (rule left_join_Inr)
  then show thesis
    using c drop_columns_Inr [OF out] names_g
    by (intro that [of lk B c]) simp_all
qed

lemma test_Inr:
  assumes "result (prepare_data data (Some l) s) = Inr out" and "l < length s"
  obtains lk B c where "map_of (s ! data) ''unit_number'' = Some lk"
    and "fst ` set B = {''max_cycles''} \<union> (fst ` set (s ! l) - {''unit_number''})"
    and "fst ` set B \<inter> fst ` set (s ! data) = {}"
    and "\<forall>col \<in> snd ` set B. length col = length lk"
    and "evaluate (s ! data @ B)
           (Minus (Plus (Var ''max_cycles'') (Var ''remaining_cycles'')) (Var ''time_in_cycles'')) = Inr c"
    and "out = filter (\<lambda>(name, col). name \<notin> {''remaining_cycles'', ''max_cycles''})
                 (AList.update ''RUL'' c (s ! data @ B))"
proof -
  obtain g j k c where g: "agg_count (s ! data) ''unit_number'' ''max_cycles'' ''time_in_cycles'' = Inr g"
    and j: "left_join (s ! data) g ''unit_number'' = Inr j"
    and k: "left_join j (s ! l) ''unit_number'' = Inr k"
    and c: "evaluate k (Minus (Plus (Var ''max_cycles'') (Var ''remaining_cycles'')) (Var ''time_in_cycles'')) = Inr c"
    and out: "drop_columns (AList.update ''RUL'' c k) [''remaining_cycles'', ''max_cycles''] = Inr out"
    using assms
    by (simp add: prepare_data_test_steps Let_def result_def nth_append
        split: sum.splits del: evaluate.simps)
  obtain ks cs where "g = [(''unit_number'', remdups ks), (''max_cycles'', cs)]"
    using g by (rule agg_count_Inr)
  then have names_g: "fst ` set g - {''unit_number''} = {''max_cycles''}"
    by auto
  obtain lk B1 where B1: "map_of (s ! data) ''unit_number'' = Some lk" "j = s ! data @ B1"
    "fst ` set B1 = fst ` set g - {''unit_number''}" "fst ` set B1 \<inter> fst ` set (s ! data) = {}"
    "\<forall>c \<in> snd ` set B1. length c = length lk"
    using j by (rule left_join_Inr)
  obtain lk' B2 where B2: "map_of j ''unit_number'' = Some lk'" "k = j @ B2"
    "fst ` set B2 = fst ` set (s ! l) - {''unit_number''}" "fst ` set B2 \<inter> fst ` set j = {}"
    "\<forall>c \<in> snd ` set B2. length c = length lk'"
    using k by (rule left_join_Inr)
  have "lk' = lk"
    using B1(1) B2(1) by (simp add: B1(2))
  show thesis
  proof (rule that [of lk "B1 @ B2" c])
    show "map_of (s ! data) ''unit_number'' = Some lk" by (rule B1(1))
    show "fst ` set (B1 @ B2) = {''max_cycles''} \<union> (fst ` set (s ! l) - {''unit_number''})"
      using B1(3) B2(3) names_g by (simp add: image_Un)
    show "fst ` set (B1 @ B2) \<inter> fst ` set (s ! data) = {}"
      using B1(4) B2(4) by (auto simp: B1(2) image_Un)
    show "\<forall>col \<in> snd ` set (B1 @ B2). length col = length lk"
      using B1(5) B2(5) \<open>lk' = lk\<close> by (auto simp: image_Un)
    show "evaluate (s ! data @ B1 @ B2)
           (Minus (Plus (Var ''max_cycles'') (Var ''remaining_cycles'')) (Var ''time_in_cycles'')) = Inr c"
      using c by (simp only: B2(2) B1(2) append_assoc)
    show "out = filter (\<lambda>(name, col). name \<notin> {''remaining_cycles'', ''max_cycles''})
                 (AList.update ''RUL'' c (s ! data @ B1 @ B2))"
      using drop_columns_Inr [OF out] by (simp add: B2(2) B1(2))
  qed
qed


lemma update_values: "snd ` set (AList.update k v al) \<subseteq> insert v (snd ` set al)"
  by (induction al) auto

lemma update_keeps: "k' \<noteq> k \<Longrightarrow> (k', v') \<in> set al \<Longrightarrow> (k', v') \<in> set (AList.update k v al)"
  by (induction al) auto

lemma rows_kept:
  assumes "rectangular df" and "map_of df ''unit_number'' = Some lk"
    and "\<forall>col \<in> snd ` set B. length col = length lk"
    and "evaluate (df @ B) e = Inr c"
    and "''unit_number'' \<notin> S"
    and "out = filter (\<lambda>(name, col). name \<notin> S) (AList.update ''RUL'' c (df @ B))"
  shows "length_df out = length_df df \<and> rectangular out"
proof -
  let ?n = "length_df df"
  have n: "length lk = ?n"
    using assms(1,2) by (rule rectangular_length)
  have all: "\<forall>col \<in> snd ` set (df @ B). length col = ?n"
    using assms(1,3) n by (auto simp: rectangular_def)
  then have "length c = ?n"
    using assms(4) by (rule evaluate_length)
  then have "\<forall>col \<in> snd ` set (AList.update ''RUL'' c (df @ B)). length col = ?n"
    using all update_values [of "''RUL''" c "df @ B"] by blast
  then have cols: "\<forall>col \<in> snd ` set out. length col = ?n"
    unfolding assms(6) by auto
  have "(''unit_number'', lk) \<in> set (df @ B)"
    using assms(2) by (auto dest: map_of_SomeD)
  then have "(''unit_number'', lk) \<in> set (AList.update ''RUL'' c (df @ B))"
    by (intro update_keeps) simp_all
  then have "(''unit_number'', lk) \<in> set out"
    unfolding assms(6) using assms(5) by simp
  then have "out \<noteq> []" by auto
  then show ?thesis
    using cols by (cases out) (auto simp: length_df_def rectangular_def)
qed

text \<open>
  C4. Whenever \<open>prepare_data\<close> returns a table, with labels or without, the table has as
  many rows as the input, in every column.
\<close>

theorem prepare_data_row_count:
  assumes "rectangular (s ! data)"
    and "case y of None \<Rightarrow> True | Some l \<Rightarrow> l < length s"
    and "result (prepare_data data y s) = Inr out"
  shows "length_df out = length_df (s ! data) \<and> rectangular out"
proof (cases y)
  case None
  obtain lk B c where a: "map_of (s ! data) ''unit_number'' = Some lk"
    and b: "\<forall>col \<in> snd ` set B. length col = length lk"
    and c: "evaluate (s ! data @ B) (Minus (Var ''max_cycles'') (Var ''time_in_cycles'')) = Inr c"
    and d: "out = filter (\<lambda>(name, col). name \<notin> {''max_cycles''}) (AList.update ''RUL'' c (s ! data @ B))"
    using assms(3) unfolding None by (rule train_Inr)
  show ?thesis
    by (rule rows_kept [OF assms(1) a b c _ d]) simp
next
  case (Some l)
  then have l: "l < length s" using assms(2) by simp
  obtain lk B c where a: "map_of (s ! data) ''unit_number'' = Some lk"
    and b: "\<forall>col \<in> snd ` set B. length col = length lk"
    and c: "evaluate (s ! data @ B)
           (Minus (Plus (Var ''max_cycles'') (Var ''remaining_cycles'')) (Var ''time_in_cycles'')) = Inr c"
    and d: "out = filter (\<lambda>(name, col). name \<notin> {''remaining_cycles'', ''max_cycles''})
                 (AList.update ''RUL'' c (s ! data @ B))"
    using assms(3) l unfolding Some by (rule test_Inr)
  show ?thesis
    by (rule rows_kept [OF assms(1) a b c _ d]) simp
qed

lemma enriched_columns:
  assumes "out = AList.update ''RUL'' c df"
  shows "set (get_column_names out) = set (get_column_names df) \<union> {''RUL''}"
    and "''RUL'' \<notin> set (get_column_names df) \<Longrightarrow> get_column_names out = get_column_names df @ [''RUL'']"
    and "name \<noteq> ''RUL'' \<Longrightarrow> map_of out name = map_of df name"
  unfolding assms get_column_names_def
  by (auto simp: dom_update update_keys update_conv')

theorem prepare_data_row_count_witness:
  "rectangular ([scenario_runs, scenario_labels] ! 0)
   \<and> (1::nat) < length [scenario_runs, scenario_labels]
   \<and> result (prepare_data 0 (Some 1) [scenario_runs, scenario_labels]) = Inr scenario_enriched
   \<and> length_df scenario_enriched = length_df ([scenario_runs, scenario_labels] ! 0)
   \<and> rectangular scenario_enriched"
proof -
  have h: "rectangular ([scenario_runs, scenario_labels] ! 0)"
    by (simp add: rectangular_def length_df_def scenario_runs_def)
  show ?thesis
    using h scenario_result
      prepare_data_row_count [where s = "[scenario_runs, scenario_labels]" and data = 0
        and y = "Some 1" and out = scenario_enriched]
    by simp
qed

text \<open>
  C5. Whenever \<open>prepare_data\<close> returns a table, its columns are those of the input and
  \<open>RUL\<close>, added last when the input has no column of that name; \<open>max_cycles\<close> is not
  among them, nor is \<open>remaining_cycles\<close> when a label table (of the columns \<open>unit_number\<close>
  and \<open>remaining_cycles\<close>) was given; every column but \<open>RUL\<close> is as in the input.
\<close>

theorem prepare_data_columns:
  assumes "case y of None \<Rightarrow> True
           | Some l \<Rightarrow> l < length s
               \<and> set (get_column_names (s ! l)) = {''unit_number'', ''remaining_cycles''}"
    and "result (prepare_data data y s) = Inr out"
  shows "set (get_column_names out) = set (get_column_names (s ! data)) \<union> {''RUL''}
       \<and> (''RUL'' \<notin> set (get_column_names (s ! data))
            \<longrightarrow> get_column_names out = get_column_names (s ! data) @ [''RUL''])
       \<and> ''max_cycles'' \<notin> set (get_column_names out)
       \<and> (y \<noteq> None \<longrightarrow> ''remaining_cycles'' \<notin> set (get_column_names out))
       \<and> (\<forall>name. name \<noteq> ''RUL'' \<longrightarrow> map_of out name = map_of (s ! data) name)"
proof (cases y)
  case None
  obtain lk B c where B: "fst ` set B = {''max_cycles''}"
    "fst ` set B \<inter> fst ` set (s ! data) = {}"
    and "out = filter (\<lambda>(name, col). name \<notin> {''max_cycles''}) (AList.update ''RUL'' c (s ! data @ B))"
    using assms(2) unfolding None by (rule train_Inr)
  moreover have "filter (\<lambda>(name, col). name \<notin> {''max_cycles''}) (AList.update ''RUL'' c (s ! data @ B))
      = AList.update ''RUL'' c (s ! data)"
    using B by (intro filter_scaffold) auto
  ultimately have out: "out = AList.update ''RUL'' c (s ! data)"
    by simp
  have "''max_cycles'' \<notin> set (get_column_names (s ! data))"
    using B by (auto simp: get_column_names_def)
  then show ?thesis
    using enriched_columns [OF out] None by simp
next
  case (Some l)
  then have l: "l < length s" "fst ` set (s ! l) = {''unit_number'', ''remaining_cycles''}"
    using assms(1) by (simp_all add: get_column_names_def)
  obtain lk B c where B: "fst ` set B = {''max_cycles''} \<union> (fst ` set (s ! l) - {''unit_number''})"
    "fst ` set B \<inter> fst ` set (s ! data) = {}"
    and "out = filter (\<lambda>(name, col). name \<notin> {''remaining_cycles'', ''max_cycles''})
                 (AList.update ''RUL'' c (s ! data @ B))"
    using assms(2) l(1) unfolding Some by (rule test_Inr)
  moreover have names_B: "fst ` set B = {''max_cycles'', ''remaining_cycles''}"
    unfolding B(1) l(2) by auto
  then have "filter (\<lambda>(name, col). name \<notin> {''remaining_cycles'', ''max_cycles''})
                 (AList.update ''RUL'' c (s ! data @ B))
      = AList.update ''RUL'' c (s ! data)"
    using B(2) by (intro filter_scaffold) auto
  ultimately have out: "out = AList.update ''RUL'' c (s ! data)"
    by simp
  have "''max_cycles'' \<notin> set (get_column_names (s ! data))"
    "''remaining_cycles'' \<notin> set (get_column_names (s ! data))"
    using B(2) names_B by (auto simp: get_column_names_def)
  then show ?thesis
    using enriched_columns [OF out] by simp
qed


theorem prepare_data_columns_witness:
  "(1::nat) < length [scenario_runs, scenario_labels]
   \<and> set (get_column_names ([scenario_runs, scenario_labels] ! 1)) = {''unit_number'', ''remaining_cycles''}
   \<and> result (prepare_data 0 (Some 1) [scenario_runs, scenario_labels]) = Inr scenario_enriched
   \<and> get_column_names scenario_enriched = get_column_names ([scenario_runs, scenario_labels] ! 0) @ [''RUL'']
   \<and> ''max_cycles'' \<notin> set (get_column_names scenario_enriched)
   \<and> ''remaining_cycles'' \<notin> set (get_column_names scenario_enriched)"
proof -
  have h: "set (get_column_names ([scenario_runs, scenario_labels] ! 1)) = {''unit_number'', ''remaining_cycles''}"
    by (auto simp: get_column_names_def scenario_labels_def)
  have r: "''RUL'' \<notin> set (get_column_names ([scenario_runs, scenario_labels] ! 0))"
    by (simp add: get_column_names_def scenario_runs_def)
  show ?thesis
    using h r scenario_result
      prepare_data_columns [where s = "[scenario_runs, scenario_labels]" and data = 0
        and y = "Some 1" and out = scenario_enriched]
    by auto
qed

section \<open>The store after the call\<close>

text \<open>
  C9. After a call of \<open>prepare_data\<close>, returning or raising, every object that was in the
  store is as it was, the two arguments among them: the store has only grown by new objects.
\<close>

theorem prepare_data_frame:
  "\<exists>fresh. snd (prepare_data data y s) = s @ fresh"
proof (cases y)
  case None
  then show ?thesis
    by (simp add: prepare_data_train_steps Let_def split: sum.splits del: evaluate.simps)
next
  case (Some l)
  then show ?thesis
    by (simp add: prepare_data_test_steps Let_def split: sum.splits del: evaluate.simps)
qed

section \<open>The unit numbers of the label table\<close>

lemma y_test_steps:
  "y_test rows s =
     (let c = map (\<lambda>row. if 0 < length row then Some (row ! 0) else None) rows in
      if length rows \<noteq> 100 then (Inl (LengthMismatch 100 (length rows)), s @ [[(''remaining_cycles'', c)]])
      else (Inr (length s), s @ [[(''remaining_cycles'', c), (''unit_number'', vrange 1 101)]]))"
  by (simp add: y_test_def bind_def read_csv_def new_def add_column_def add_virtual_column_def
      return_def length_df_def vrange_def Let_def)

text \<open>
  C8, as stated, fails: the unit numbers are the fixed range \<open>vrange(1, 101)\<close>, and no row
  of a label file of three rows is given a unit number.
\<close>

theorem y_test_unit_numbers_counterexample:
  "result (y_test [[7], [8], [9]] []) = Inl (LengthMismatch 100 3)"
  by (simp add: y_test_steps result_def)

text \<open>
  C8, amended. For a label file of exactly 100 rows, row \<open>k\<close> of the label table has the
  unit number \<open>k\<close>, for every \<open>k\<close> from 1 to 100, whatever the file holds; the remaining
  cycles are the file's.
\<close>

theorem y_test_unit_numbers:
  assumes "length rows = 100"
  shows "\<exists>y un. result (y_test rows s) = Inr y
           \<and> map_of y ''remaining_cycles'' = Some (map (\<lambda>row. if 0 < length row then Some (row ! 0) else None) rows)
           \<and> map_of y ''unit_number'' = Some un \<and> length un = length rows
           \<and> (\<forall>k. 1 \<le> k \<and> k \<le> length rows \<longrightarrow> un ! (k - 1) = Some (of_nat k))"
  using assms by (auto simp: y_test_steps result_def vrange_def Let_def)

theorem y_test_unit_numbers_witness:
  "length (replicate 100 [112 :: int64]) = 100
   \<and> (\<exists>y un. result (y_test (replicate 100 [112]) []) = Inr y
         \<and> map_of y ''unit_number'' = Some un \<and> length un = 100
         \<and> un ! 0 = Some 1 \<and> un ! 99 = Some 100)"
proof -
  have h: "length (replicate 100 [112 :: int64]) = 100" by simp
  obtain y un where y: "result (y_test (replicate 100 [112]) []) = Inr y"
    "map_of y ''unit_number'' = Some un" "length un = length (replicate 100 [112 :: int64])"
    "\<forall>k. 1 \<le> k \<and> k \<le> length (replicate 100 [112 :: int64]) \<longrightarrow> un ! (k - 1) = Some (of_nat k)"
    using y_test_unit_numbers [OF h, of "[]"] by blast
  have "un ! 0 = Some 1"
    using y(4) [THEN spec, of 1] by simp
  moreover have "un ! 99 = Some 100"
    using y(4) [THEN spec, of 100] by simp
  ultimately show ?thesis
    using y(1,2,3) by auto
qed


end
